theory Spec2Isabelle
  imports Main
begin

section \<open>Data model\<close>

text \<open>
  An aggregate record as the server reads it: the handlers only look at \<open>location\<close>
  (the query parameter), \<open>windowEnd\<close> (the ordering key of every query) and
  \<open>safetyStatus\<close> (read by the status handler). The measured fields are passed through
  untouched and are left out. \<open>windowEnd\<close> is a point in time, an integer here.
\<close>

record aggregate =
  location :: string
  windowEnd :: int
  safetyStatus :: string

text \<open>
  The Cosmos container behind \<open>container.items.query(querySpec).fetchAll()\<close>: the
  stored documents, and the location parameters for which the lookup throws instead of
  answering, each with the message of the thrown error.
\<close>

record container =
  items :: "aggregate list"
  down :: "(string \<times> string) list"

datatype store_error = StoreError string

text \<open>\<open>ORDER BY c.windowEnd DESC\<close>.\<close>

definition order_by_windowEnd_desc :: "aggregate list \<Rightarrow> aggregate list" where
  "order_by_windowEnd_desc ds = rev (sort_key windowEnd ds)"

text \<open>
  \<open>SELECT TOP n ... FROM c WHERE c.location = @location ORDER BY c.windowEnd DESC\<close>,
  fetched whole, \<open>n\<close> being the number the handler writes into the query text. A
  negative \<open>n\<close> is not a query the store accepts: it throws. An upper bound the store
  may put on \<open>n\<close> is not modelled.
\<close>

definition fetchAll :: "container \<Rightarrow> int \<Rightarrow> string \<Rightarrow> store_error + aggregate list" where
  "fetchAll c n loc =
     (case map_of (down c) loc of
        Some msg \<Rightarrow> Inl (StoreError msg)
      | None \<Rightarrow>
          if n < 0 then Inl (StoreError ''Syntax error'')
          else Inr (take (nat n)
                 (order_by_windowEnd_desc (filter (\<lambda>d. location d = loc) (items c)))))"

section \<open>HTTP responses\<close>

record failure_body =
  error :: string
  message :: string

datatype 'a response = Json200 'a | Json500 failure_body

fun success :: "'a response \<Rightarrow> bool" where
  "success (Json200 _) = True"
| "success (Json500 _) = False"

fun status_code :: "'a response \<Rightarrow> nat" where
  "status_code (Json200 _) = 200"
| "status_code (Json500 _) = 500"

definition locations :: "string list" where
  "locations = [''Dow's Lake'', ''Fifth Avenue'', ''NAC'']"

section \<open>GET /api/latest\<close>

record latest_body =
  timestamp :: string
  data :: "aggregate list"

text \<open>
  The \<open>for (const location of locations)\<close> loop of the handler, \<open>latestData\<close> as the
  accumulator. A throwing lookup leaves the loop: the whole body sits in one \<open>try\<close>.
\<close>

fun latest_loop :: "container \<Rightarrow> string list \<Rightarrow> aggregate list \<Rightarrow> store_error + aggregate list" where
  "latest_loop c [] latestData = Inr latestData"
| "latest_loop c (loc # locs) latestData =
     (case fetchAll c 1 loc of
        Inl e \<Rightarrow> Inl e
      | Inr resources \<Rightarrow>
          (case resources of
             [] \<Rightarrow> latest_loop c locs latestData
           | r # _ \<Rightarrow> latest_loop c locs (latestData @ [r])))"

definition latest_handler :: "container \<Rightarrow> string \<Rightarrow> latest_body response" where
  "latest_handler c now =
     (case latest_loop c locations [] of
        Inl (StoreError msg) \<Rightarrow>
          Json500 \<lparr>error = ''Failed to fetch latest data'', message = msg\<rparr>
      | Inr latestData \<Rightarrow> Json200 \<lparr>timestamp = now, data = latestData\<rparr>)"

section \<open>The runtime's \<open>decodeURIComponent\<close> and \<open>parseInt\<close>\<close>

text \<open>
  Strings are byte strings, a character beyond ASCII being its UTF-8 bytes. The two
  built-ins follow ECMA-262 (\<open>Decode\<close> with an empty preserved set, and
  \<open>parseInt\<close> with no radix argument).
\<close>

definition hex_val :: "char \<Rightarrow> nat option" where
  "hex_val ch =
     (let n = (of_char ch :: nat) in
      if 48 \<le> n \<and> n \<le> 57 then Some (n - 48)
      else if 97 \<le> n \<and> n \<le> 102 then Some (n - 87)
      else if 65 \<le> n \<and> n \<le> 70 then Some (n - 55)
      else None)"

text \<open>One escape \<open>%XX\<close> at the head of the string: its byte and the rest.\<close>

fun escape :: "string \<Rightarrow> (nat \<times> string) option" where
  "escape (p # a # b # rest) =
     (if p = CHR ''%'' then
        (case hex_val a of
           None \<Rightarrow> None
         | Some x \<Rightarrow> (case hex_val b of None \<Rightarrow> None | Some y \<Rightarrow> Some (16 * x + y, rest)))
      else None)"
| "escape _ = None"

fun escapes :: "nat \<Rightarrow> string \<Rightarrow> (nat list \<times> string) option" where
  "escapes 0 s = Some ([], s)"
| "escapes (Suc n) s =
     (case escape s of
        None \<Rightarrow> None
      | Some (b, rest) \<Rightarrow>
          (case escapes n rest of None \<Rightarrow> None | Some (bs, rest') \<Rightarrow> Some (b # bs, rest')))"

text \<open>The number of leading 1 bits of a byte, as far as \<open>Decode\<close> tells them apart.\<close>

definition leading_ones :: "nat \<Rightarrow> nat" where
  "leading_ones b =
     (if b < 128 then 0 else if b < 192 then 1 else if b < 224 then 2
      else if b < 240 then 3 else if b < 248 then 4 else 5)"

definition cont_byte :: "nat \<Rightarrow> bool" where
  "cont_byte b \<longleftrightarrow> 128 \<le> b \<and> b \<le> 191"

text \<open>Well-formed UTF-8 encodings of one code point (two to four bytes).\<close>

fun valid_utf8 :: "nat list \<Rightarrow> bool" where
  "valid_utf8 [b0, b1] \<longleftrightarrow> 194 \<le> b0 \<and> b0 \<le> 223 \<and> cont_byte b1"
| "valid_utf8 [b0, b1, b2] \<longleftrightarrow>
     ((b0 = 224 \<and> 160 \<le> b1 \<and> b1 \<le> 191)
      \<or> (225 \<le> b0 \<and> b0 \<le> 236 \<and> cont_byte b1)
      \<or> (b0 = 237 \<and> 128 \<le> b1 \<and> b1 \<le> 159)
      \<or> (238 \<le> b0 \<and> b0 \<le> 239 \<and> cont_byte b1))
     \<and> cont_byte b2"
| "valid_utf8 [b0, b1, b2, b3] \<longleftrightarrow>
     ((b0 = 240 \<and> 144 \<le> b1 \<and> b1 \<le> 191)
      \<or> (241 \<le> b0 \<and> b0 \<le> 243 \<and> cont_byte b1)
      \<or> (b0 = 244 \<and> 128 \<le> b1 \<and> b1 \<le> 143))
     \<and> cont_byte b2 \<and> cont_byte b3"
| "valid_utf8 _ \<longleftrightarrow> False"

datatype uri_error = URIError

lemma escape_shorter: "escape s = Some (b, rest) \<Longrightarrow> length rest < length s"
  by (induction s rule: escape.induct) (auto split: if_splits option.splits)

lemma escapes_not_longer: "escapes n s = Some (bs, rest) \<Longrightarrow> length rest \<le> length s"
proof (induction n arbitrary: s bs rest)
  case 0
  then show ?case by simp
next
  case (Suc n)
  then show ?case
    by (fastforce split: option.splits prod.splits dest: escape_shorter)
qed

function decodeURIComponent :: "string \<Rightarrow> uri_error + string" where
  "decodeURIComponent [] = Inr []"
| "decodeURIComponent (ch # cs) =
     (if ch \<noteq> CHR ''%'' then
        (case decodeURIComponent cs of Inl e \<Rightarrow> Inl e | Inr r \<Rightarrow> Inr (ch # r))
      else
        (case escape (ch # cs) of
           None \<Rightarrow> Inl URIError
         | Some (b, rest) \<Rightarrow>
             if leading_ones b = 0 then
               (case decodeURIComponent rest of
                  Inl e \<Rightarrow> Inl e
                | Inr r \<Rightarrow> Inr (char_of b # r))
             else if leading_ones b = 1 \<or> leading_ones b > 4 then Inl URIError
             else
               (case escapes (leading_ones b - 1) rest of
                  None \<Rightarrow> Inl URIError
                | Some (bs, rest') \<Rightarrow>
                    if valid_utf8 (b # bs) then
                      (case decodeURIComponent rest' of
                         Inl e \<Rightarrow> Inl e
                       | Inr r \<Rightarrow> Inr (map char_of (b # bs) @ r))
                    else Inl URIError)))"
  by pat_completeness auto
termination
proof (relation "measure length")
  show "wf (measure length)" by simp
next
  fix ch :: char and cs :: string
  show "(cs, ch # cs) \<in> measure length" by simp
next
  fix ch :: char and cs x2 and b :: nat and rest
  assume "escape (ch # cs) = Some x2" "(b, rest) = x2"
  then show "(rest, ch # cs) \<in> measure length"
    using escape_shorter [of "ch # cs" b rest] by simp
next
  fix ch :: char and cs x2 and b :: nat and rest x2a bs rest'
  assume "escape (ch # cs) = Some x2" "(b, rest) = x2"
    "escapes (leading_ones b - 1) rest = Some x2a" "(bs, rest') = x2a"
  then show "(rest', ch # cs) \<in> measure length"
    using escape_shorter [of "ch # cs" b rest]
      escapes_not_longer [of "leading_ones b - 1" rest bs rest'] by simp
qed

text \<open>
  \<open>StrWhiteSpaceChar\<close>: the length in bytes of the white space or line terminator at
  the head of the string, 0 when there is none. TAB, LF, VT, FF, CR and SP are one byte;
  U+00A0 is two; U+1680, U+2000 to U+200A, U+2028, U+2029, U+202F, U+205F, U+3000 and
  U+FEFF are three.
\<close>

definition ws_len :: "string \<Rightarrow> nat" where
  "ws_len s =
     (case map of_char s of
        [] \<Rightarrow> 0
      | (a :: nat) # r \<Rightarrow>
          if (9 \<le> a \<and> a \<le> 13) \<or> a = 32 then 1
          else (case r of
                  [] \<Rightarrow> 0
                | b # r' \<Rightarrow>
                    if a = 194 \<and> b = 160 then 2
                    else (case r' of
                            [] \<Rightarrow> 0
                          | c # _ \<Rightarrow>
                              if (a = 225 \<and> b = 154 \<and> c = 128)
                                 \<or> (a = 226 \<and> b = 128 \<and> 128 \<le> c \<and> c \<le> 138)
                                 \<or> (a = 226 \<and> b = 128 \<and> (c = 168 \<or> c = 169 \<or> c = 175))
                                 \<or> (a = 226 \<and> b = 129 \<and> c = 159)
                                 \<or> (a = 227 \<and> b = 128 \<and> c = 128)
                                 \<or> (a = 239 \<and> b = 187 \<and> c = 191)
                              then 3 else 0)))"

lemma ws_len_le: "ws_len s \<le> length s"
proof (cases s)
  case Nil
  then show ?thesis by (simp add: ws_len_def)
next
  case (Cons a r)
  note s = this
  show ?thesis
  proof (cases r)
    case Nil
    with s show ?thesis by (simp add: ws_len_def)
  next
    case (Cons b r')
    note r = this
    show ?thesis
    proof (cases r')
      case Nil
      with s r show ?thesis by (simp add: ws_len_def)
    next
      case (Cons c r'')
      with s r show ?thesis by (simp add: ws_len_def)
    qed
  qed
qed

function trim_start :: "string \<Rightarrow> string" where
  "trim_start s = (if ws_len s = 0 then s else trim_start (drop (ws_len s) s))"
  by pat_completeness auto
termination
proof (relation "measure length")
  show "wf (measure length)" by simp
next
  fix s :: string
  assume "ws_len s \<noteq> 0"
  then show "(drop (ws_len s) s, s) \<in> measure length"
    using ws_len_le [of s] by simp
qed

declare trim_start.simps [simp del]

text \<open>
  A Number as \<open>parseInt\<close> returns it: \<open>NaN\<close>, an infinity, or a double whose value is
  an integer (\<open>-0\<close> is \<open>Num 0\<close>).
\<close>

datatype js_number = NaN | Num int | PosInfinity | NegInfinity

text \<open>The number of binary digits of a positive integer.\<close>

function bit_length :: "int \<Rightarrow> nat" where
  "bit_length n = (if n \<le> 0 then 0 else Suc (bit_length (n div 2)))"
  by pat_completeness auto
termination
  by (relation "measure nat") auto

declare bit_length.simps [simp del]

text \<open>
  The double nearest to a non-negative integer, ties to the even significand of 53
  bits; \<open>None\<close> is the overflow to infinity, at \<open>2^1024\<close>. An integer below \<open>2^53\<close>
  is a double as it is.
\<close>

definition to_double :: "int \<Rightarrow> int option" where
  "to_double n =
     (if n < 2 ^ 53 then Some n
      else
        (let e = bit_length n - 53;
             q = n div 2 ^ e;
             r = n mod 2 ^ e;
             q' = (if 2 * r > 2 ^ e \<or> (2 * r = 2 ^ e \<and> odd q) then q + 1 else q)
         in if q' * 2 ^ e \<ge> 2 ^ 1024 then None else Some (q' * 2 ^ e)))"

text \<open>The Number for \<open>sign \<times> mathInt\<close>.\<close>

definition to_number :: "bool \<Rightarrow> int \<Rightarrow> js_number" where
  "to_number negative mathInt =
     (case to_double mathInt of
        None \<Rightarrow> if negative then NegInfinity else PosInfinity
      | Some d \<Rightarrow> Num (if negative then - d else d))"

definition digit :: "nat \<Rightarrow> char \<Rightarrow> nat option" where
  "digit radix ch =
     (case hex_val ch of None \<Rightarrow> None | Some d \<Rightarrow> if d < radix then Some d else None)"

fun digits_value :: "nat \<Rightarrow> int \<Rightarrow> string \<Rightarrow> int" where
  "digits_value radix acc [] = acc"
| "digits_value radix acc (ch # cs) =
     (case digit radix ch of
        None \<Rightarrow> acc
      | Some d \<Rightarrow> digits_value radix (acc * int radix + int d) cs)"

definition has_hex_prefix :: "string \<Rightarrow> bool" where
  "has_hex_prefix s \<longleftrightarrow> take 2 s = ''0x'' \<or> take 2 s = ''0X''"

text \<open>
  \<open>parseInt(v)\<close> for a query parameter \<open>v\<close>: \<open>None\<close> is the absent parameter
  (\<open>undefined\<close>, whose string has no digit). The value of the digits becomes the
  double nearest to it, as Node's engine computes it for any number of digits.
\<close>

definition parseInt :: "string option \<Rightarrow> js_number" where
  "parseInt v =
     (case v of
        None \<Rightarrow> NaN
      | Some inputString \<Rightarrow>
          (let s = trim_start inputString;
               negative = (take 1 s = ''-'');
               s1 = (if take 1 s = ''-'' \<or> take 1 s = ''+'' then drop 1 s else s);
               radix = (if has_hex_prefix s1 then 16 else 10);
               s2 = (if has_hex_prefix s1 then drop 2 s1 else s1);
               z = takeWhile (\<lambda>ch. digit radix ch \<noteq> None) s2
           in if z = [] then NaN else to_number negative (digits_value radix 0 z)))"

section \<open>Decimal numerals\<close>

text \<open>The decimal numeral a caller writes for an integer, as \<open>?limit=...\<close>.\<close>

function decimal_nat :: "nat \<Rightarrow> string" where
  "decimal_nat n =
     (if n < 10 then [char_of (48 + n)]
      else decimal_nat (n div 10) @ [char_of (48 + n mod 10)])"
  by pat_completeness auto
termination
  by (relation "measure id") auto

declare decimal_nat.simps [simp del]

definition decimal :: "int \<Rightarrow> string" where
  "decimal n = (if n < 0 then CHR ''-'' # decimal_nat (nat (- n)) else decimal_nat (nat n))"

section \<open>GET /api/history/:location\<close>

record history_body =
  location_h :: string
  dataPoints :: nat
  data_h :: "aggregate list"

text \<open>
  \<open>parseInt(req.query.limit) || 12\<close>: \<open>NaN\<close> and 0 are falsy, every other Number
  is the result as it is.
\<close>

definition resolved_limit :: "string option \<Rightarrow> js_number" where
  "resolved_limit v =
     (case parseInt v of
        NaN \<Rightarrow> Num 12
      | Num n \<Rightarrow> if n = 0 then Num 12 else Num n
      | PosInfinity \<Rightarrow> PosInfinity
      | NegInfinity \<Rightarrow> NegInfinity)"

text \<open>
  The history query: \<open>TOP\<close> with the resolved Number written after it. \<open>TOP\<close>
  takes a non-negative integer: with an infinity (or \<open>NaN\<close>) in its place the query
  is not one the store accepts, and it throws.
\<close>

definition fetchAll_limit :: "container \<Rightarrow> js_number \<Rightarrow> string \<Rightarrow> store_error + aggregate list" where
  "fetchAll_limit c limit loc =
     (case limit of
        Num n \<Rightarrow> fetchAll c n loc
      | _ \<Rightarrow>
          (case map_of (down c) loc of
             Some msg \<Rightarrow> Inl (StoreError msg)
           | None \<Rightarrow> Inl (StoreError ''Syntax error'')))"

text \<open>
  The handler, from \<open>req.params.location\<close> and \<open>req.query.limit\<close>. The decoded
  location goes to the query as it is; \<open>URI malformed\<close> is the message of the
  runtime's \<open>URIError\<close>.
\<close>

definition history_handler :: "container \<Rightarrow> string \<Rightarrow> string option \<Rightarrow> history_body response" where
  "history_handler c param_location query_limit =
     (case decodeURIComponent param_location of
        Inl URIError \<Rightarrow>
          Json500 \<lparr>error = ''Failed to fetch historical data'', message = ''URI malformed''\<rparr>
      | Inr loc \<Rightarrow>
          (let limit = resolved_limit query_limit in
           case fetchAll_limit c limit loc of
             Inl (StoreError msg) \<Rightarrow>
               Json500 \<lparr>error = ''Failed to fetch historical data'', message = msg\<rparr>
           | Inr resources \<Rightarrow>
               (let reversed = rev resources in
                Json200 \<lparr>location_h = loc, dataPoints = length reversed, data_h = reversed\<rparr>)))"

section \<open>GET /api/status\<close>

record breakdown =
  safe :: nat
  caution :: nat
  unsafe :: nat
  total_n :: nat

record status_body =
  timestamp_s :: string
  overallStatus :: string
  breakdown :: breakdown

text \<open>The loop over the locations, the three counters as the accumulator.\<close>

fun status_loop :: "container \<Rightarrow> string list \<Rightarrow> nat \<times> nat \<times> nat \<Rightarrow> store_error + nat \<times> nat \<times> nat" where
  "status_loop c [] counts = Inr counts"
| "status_loop c (loc # locs) (safeCount, cautionCount, unsafeCount) =
     (case fetchAll c 1 loc of
        Inl e \<Rightarrow> Inl e
      | Inr resources \<Rightarrow>
          (case resources of
             [] \<Rightarrow> status_loop c locs (safeCount, cautionCount, unsafeCount)
           | r # _ \<Rightarrow>
               if safetyStatus r = ''Safe'' then
                 status_loop c locs (safeCount + 1, cautionCount, unsafeCount)
               else if safetyStatus r = ''Caution'' then
                 status_loop c locs (safeCount, cautionCount + 1, unsafeCount)
               else status_loop c locs (safeCount, cautionCount, unsafeCount + 1)))"

definition status_handler :: "container \<Rightarrow> string \<Rightarrow> status_body response" where
  "status_handler c now =
     (case status_loop c locations (0, 0, 0) of
        Inl (StoreError msg) \<Rightarrow>
          Json500 \<lparr>error = ''Failed to fetch system status'', message = msg\<rparr>
      | Inr (safeCount, cautionCount, unsafeCount) \<Rightarrow>
          Json200 \<lparr>timestamp_s = now,
            overallStatus =
              (if unsafeCount > 0 then ''Unsafe''
               else if cautionCount > 0 then ''Caution'' else ''Safe''),
            breakdown = \<lparr>safe = safeCount, caution = cautionCount, unsafe = unsafeCount,
              total_n = length locations\<rparr>\<rparr>)"

section \<open>The client's history fetches\<close>

text \<open>
  \<open>loadHistoricalData\<close> suspends at \<open>await fetch(...)\<close>; what follows runs when that
  request settles, in whatever order the network answers. The state is the select
  element's value, the locations of the requests in flight (oldest first) and the data
  the two charts were last drawn from (\<open>None\<close> before the first \<open>updateCharts\<close>).
\<close>

record poller =
  selected :: string
  pending :: "string list"
  charts :: "aggregate list option"

text \<open>
  A fetch settles with the server's JSON, or it rejects and the \<open>catch\<close> branch draws
  the mock data it generates (random, so given with the event).
\<close>

datatype fetch_outcome = Resolved "history_body response" | Rejected "aggregate list"

datatype event =
    Select string  \<comment> \<open>the \<open>change\<close> listener: \<open>loadHistoricalData(e.target.value)\<close>\<close>
  | Tick  \<comment> \<open>the interval callback reaching \<open>loadHistoricalData(loc)\<close>\<close>
  | Settle nat fetch_outcome  \<comment> \<open>the request at this position in \<open>pending\<close> settles\<close>

text \<open>The rest of \<open>loadHistoricalData\<close> after the \<open>await\<close>.\<close>

fun apply_outcome :: "fetch_outcome \<Rightarrow> aggregate list option \<Rightarrow> aggregate list option" where
  "apply_outcome (Resolved (Json200 result)) shown = Some (data_h result)"
| "apply_outcome (Resolved (Json500 _)) shown = shown"
| "apply_outcome (Rejected mockData) shown = Some mockData"

fun poller_step :: "poller \<Rightarrow> event \<Rightarrow> poller" where
  "poller_step p (Select loc) = p\<lparr>selected := loc, pending := pending p @ [loc]\<rparr>"
| "poller_step p Tick = p\<lparr>pending := pending p @ [selected p]\<rparr>"
| "poller_step p (Settle i outcome) =
     (if i < length (pending p) then
        p\<lparr>pending := take i (pending p) @ drop (Suc i) (pending p),
          charts := apply_outcome outcome (charts p)\<rparr>
      else p)"

definition run_poller :: "poller \<Rightarrow> event list \<Rightarrow> poller" where
  "run_poller p evs = foldl poller_step p evs"

section \<open>What the \<open>TOP 1\<close> lookups return\<close>

text \<open>
  The record the query \<open>SELECT TOP 1 ... ORDER BY c.windowEnd DESC\<close> returns for a
  location, \<open>None\<close> when \<open>resources\<close> is empty, and its \<open>safetyStatus\<close>.
\<close>

definition latest_record :: "container \<Rightarrow> string \<Rightarrow> aggregate option" where
  "latest_record c l =
     (case order_by_windowEnd_desc (filter (\<lambda>d. location d = l) (items c)) of
        [] \<Rightarrow> None
      | r # _ \<Rightarrow> Some r)"

definition latest_status :: "container \<Rightarrow> string \<Rightarrow> string option" where
  "latest_status c l = map_option safetyStatus (latest_record c l)"

text \<open>
  The locations the status handler's last branch (\<open>else unsafeCount++\<close>) counts: there
  is a record, and its status is neither \<open>'Safe'\<close> nor \<open>'Caution'\<close>.
\<close>

definition counted_unsafe :: "container \<Rightarrow> string \<Rightarrow> bool" where
  "counted_unsafe c l =
     (case latest_status c l of None \<Rightarrow> False | Some s \<Rightarrow> s \<noteq> ''Safe'' \<and> s \<noteq> ''Caution'')"

section \<open>Example stores\<close>

definition dows_lake :: "int \<Rightarrow> string \<Rightarrow> aggregate" where
  "dows_lake t s = \<lparr>location = ''Dow's Lake'', windowEnd = t, safetyStatus = s\<rparr>"

definition nac :: "int \<Rightarrow> string \<Rightarrow> aggregate" where
  "nac t s = \<lparr>location = ''NAC'', windowEnd = t, safetyStatus = s\<rparr>"

text \<open>Three windows of Dow's Lake, at T, T+5 and T+10 minutes, stored out of order.\<close>

definition three_windows :: container where
  "three_windows =
     \<lparr>items = [dows_lake 5 ''Caution'', dows_lake 10 ''Safe'', dows_lake 0 ''Safe''],
      down = []\<rparr>"

text \<open>Records for two locations; the lookup for Fifth Avenue times out.\<close>

definition fifth_avenue_down :: container where
  "fifth_avenue_down =
     \<lparr>items = [dows_lake 10 ''Safe'', nac 10 ''Safe''],
      down = [(''Fifth Avenue'', ''Request timeout'')]\<rparr>"

text \<open>One record of a location outside the known set.\<close>

definition stray_location :: container where
  "stray_location =
     \<lparr>items = [\<lparr>location = ''Patterson Creek'', windowEnd = 5, safetyStatus = ''Safe''\<rparr>],
      down = []\<rparr>"

definition fifth_avenue :: "int \<Rightarrow> string \<Rightarrow> aggregate" where
  "fifth_avenue t s = \<lparr>location = ''Fifth Avenue'', windowEnd = t, safetyStatus = s\<rparr>"

text \<open>One location of each status; NAC turned unsafe in its latest window.\<close>

definition mixed_statuses :: container where
  "mixed_statuses =
     \<lparr>items = [dows_lake 10 ''Safe'', nac 5 ''Safe'', fifth_avenue 10 ''Caution'',
        nac 10 ''Unsafe''],
      down = []\<rparr>"

text \<open>Only NAC has data, and its latest window is \<open>Caution\<close>.\<close>

definition nac_caution_only :: container where
  "nac_caution_only = \<lparr>items = [nac 5 ''Safe'', nac 10 ''Caution''], down = []\<rparr>"

text \<open>A record whose status is none of the three known values.\<close>

definition unknown_status :: container where
  "unknown_status =
     \<lparr>items = [dows_lake 10 ''Safe'', fifth_avenue 10 ''Closed''], down = []\<rparr>"

section \<open>Example client traces\<close>

text \<open>Fifth Avenue and NAC each have one window.\<close>

definition two_locations :: container where
  "two_locations = \<lparr>items = [fifth_avenue 10 ''Safe'', nac 10 ''Caution''], down = []\<rparr>"

definition fresh_poller :: poller where
  "fresh_poller = \<lparr>selected = ''Dow's Lake'', pending = [], charts = None\<rparr>"

text \<open>
  The user selects Fifth Avenue and at once NAC; the answer for NAC comes first, the
  answer for Fifth Avenue after it.
\<close>

definition stale_trace :: "event list" where
  "stale_trace =
     [Select ''Fifth Avenue'', Select ''NAC'',
      Settle 1 (Resolved (history_handler two_locations ''NAC'' None)),
      Settle 0 (Resolved (history_handler two_locations ''Fifth Avenue'' None))]"

section \<open>GET /api/latest: one failing lookup fails the request\<close>

lemma latest_loop_succeeds:
  "\<forall>l\<in>set locs. map_of (down c) l = None \<Longrightarrow> \<exists>out. latest_loop c locs acc = Inr out"
  by (induction locs arbitrary: acc) (auto simp: fetchAll_def split: list.splits)

lemma latest_loop_fails:
  "\<exists>l\<in>set locs. map_of (down c) l \<noteq> None \<Longrightarrow> \<exists>e. latest_loop c locs acc = Inl e"
  by (induction locs arbitrary: acc)
    (auto simp: fetchAll_def split: list.splits option.splits)

text \<open>
  C1, as the spec states it, fails: with records for Dow's Lake and NAC and a lookup for
  Fifth Avenue that throws, the handler does not answer with the two remaining records
  but with the failure body (status 500).
\<close>

theorem latest_partial_failure_counterexample:
  "latest_handler fifth_avenue_down ''2026-01-01T00:00:00.000Z'' =
     Json500 \<lparr>error = ''Failed to fetch latest data'', message = ''Request timeout''\<rparr>"
  by (simp add: latest_handler_def locations_def fifth_avenue_down_def fetchAll_def
      order_by_windowEnd_desc_def dows_lake_def nac_def)

text \<open>
  C1, amended: the latest-snapshot operation answers with success exactly when the lookup
  of every known location succeeds; a failing lookup for any one location fails the whole
  operation (\<open>success: false\<close>, status 500), so it does in particular when every
  lookup fails.
\<close>

theorem latest_success_iff_all_lookups_succeed:
  "success (latest_handler c now) = (\<forall>l\<in>set locations. map_of (down c) l = None)
   \<and> status_code (latest_handler c now) =
       (if \<forall>l\<in>set locations. map_of (down c) l = None then 200 else 500)"
proof (cases "\<forall>l\<in>set locations. map_of (down c) l = None")
  case True
  then obtain out where "latest_loop c locations [] = Inr out"
    using latest_loop_succeeds by blast
  with True show ?thesis by (simp add: latest_handler_def)
next
  case False
  then obtain e where "latest_loop c locations [] = Inl e"
    using latest_loop_fails by blast
  with False show ?thesis by (simp add: latest_handler_def split: store_error.splits)
qed

theorem latest_success_iff_all_lookups_succeed_witness:
  "down three_windows = []
   \<and> success (latest_handler three_windows ''now'')
   \<and> status_code (latest_handler three_windows ''now'') = 200
   \<and> \<not> success (latest_handler fifth_avenue_down ''now'')
   \<and> status_code (latest_handler fifth_avenue_down ''now'') = 500"
  using latest_success_iff_all_lookups_succeed [of three_windows "''now''"]
    latest_success_iff_all_lookups_succeed [of fifth_avenue_down "''now''"]
  by (simp add: three_windows_def fifth_avenue_down_def locations_def)

section \<open>GET /api/history: the response body\<close>

text \<open>
  C10: in every successful response of the history operation, \<open>dataPoints\<close> is the
  length of the \<open>data\<close> array of the same response.
\<close>

theorem history_dataPoints_is_length:
  "history_handler c param_location query_limit = Json200 body \<Longrightarrow>
   dataPoints body = length (data_h body)"
  by (auto simp: history_handler_def Let_def
      split: sum.splits uri_error.splits store_error.splits)

theorem history_dataPoints_is_length_witness:
  "history_handler three_windows ''Dow's%20Lake'' (Some ''2'') =
     Json200 \<lparr>location_h = ''Dow's Lake'', dataPoints = 2,
       data_h = [dows_lake 5 ''Caution'', dows_lake 10 ''Safe'']\<rparr>
   \<and> dataPoints \<lparr>location_h = ''Dow's Lake'', dataPoints = 2,
       data_h = [dows_lake 5 ''Caution'', dows_lake 10 ''Safe'']\<rparr> =
     length (data_h \<lparr>location_h = ''Dow's Lake'', dataPoints = 2,
       data_h = [dows_lake 5 ''Caution'', dows_lake 10 ''Safe'']\<rparr>)"
proof -
  have h: "history_handler three_windows ''Dow's%20Lake'' (Some ''2'') =
     Json200 \<lparr>location_h = ''Dow's Lake'', dataPoints = 2,
       data_h = [dows_lake 5 ''Caution'', dows_lake 10 ''Safe'']\<rparr>"
    by code_simp
  from h history_dataPoints_is_length [OF h] show ?thesis by (rule conjI)
qed

section \<open>GET /api/history: the location is not validated\<close>

text \<open>
  C2, as the spec states it, fails: Patterson Creek is not a known location, and the
  history operation neither rejects it as a client error nor leaves the store alone. It
  queries the store with the decoded identifier and answers with success and the record
  found there.
\<close>

theorem history_unknown_location_counterexample:
  "''Patterson Creek'' \<notin> set locations
   \<and> history_handler stray_location ''Patterson%20Creek'' None =
       Json200 \<lparr>location_h = ''Patterson Creek'', dataPoints = 1,
         data_h = [\<lparr>location = ''Patterson Creek'', windowEnd = 5, safetyStatus = ''Safe''\<rparr>]\<rparr>"
  by code_simp

text \<open>
  C2, amended: the location identifier is URL-decoded and then used as it is, without
  validation against the known location set. For every location, in that set or not,
  the history operation queries the store with the decoded identifier and, where that
  query does not throw (the lookup is up and the resolved limit is a non-negative
  integer), answers with success and the records stored under the identifier, instead
  of rejecting the request.
\<close>

theorem history_location_not_validated:
  assumes "decodeURIComponent param_location = Inr loc"
    and "map_of (down c) loc = None"
    and "resolved_limit query_limit = Num k"
    and "0 \<le> k"
  shows "history_handler c param_location query_limit =
      Json200 \<lparr>location_h = loc,
        dataPoints = length (take (nat k)
          (order_by_windowEnd_desc (filter (\<lambda>d. location d = loc) (items c)))),
        data_h = rev (take (nat k)
          (order_by_windowEnd_desc (filter (\<lambda>d. location d = loc) (items c))))\<rparr>"
  using assms by (simp add: history_handler_def fetchAll_limit_def fetchAll_def Let_def)

theorem history_location_not_validated_witness:
  "''Patterson Creek'' \<notin> set locations
   \<and> decodeURIComponent ''Patterson%20Creek'' = Inr ''Patterson Creek''
   \<and> map_of (down stray_location) ''Patterson Creek'' = None
   \<and> resolved_limit None = Num 12
   \<and> history_handler stray_location ''Patterson%20Creek'' None =
      Json200 \<lparr>location_h = ''Patterson Creek'',
        dataPoints = length (take (nat 12)
          (order_by_windowEnd_desc
            (filter (\<lambda>d. location d = ''Patterson Creek'') (items stray_location)))),
        data_h = rev (take (nat 12)
          (order_by_windowEnd_desc
            (filter (\<lambda>d. location d = ''Patterson Creek'') (items stray_location))))\<rparr>
   \<and> rev (take (nat 12)
          (order_by_windowEnd_desc
            (filter (\<lambda>d. location d = ''Patterson Creek'') (items stray_location)))) =
       [\<lparr>location = ''Patterson Creek'', windowEnd = 5, safetyStatus = ''Safe''\<rparr>]"
proof -
  have n: "''Patterson Creek'' \<notin> set locations"
    by (simp add: locations_def)
  have d: "decodeURIComponent ''Patterson%20Creek'' = Inr ''Patterson Creek''"
    by code_simp
  have m: "map_of (down stray_location) ''Patterson Creek'' = None"
    by (simp add: stray_location_def)
  have l: "resolved_limit None = Num 12"
    by (simp add: resolved_limit_def parseInt_def)
  have k: "(0::int) \<le> 12"
    by simp
  have q: "rev (take (nat 12)
          (order_by_windowEnd_desc
            (filter (\<lambda>d. location d = ''Patterson Creek'') (items stray_location)))) =
       [\<lparr>location = ''Patterson Creek'', windowEnd = 5, safetyStatus = ''Safe''\<rparr>]"
    by (simp add: stray_location_def order_by_windowEnd_desc_def)
  from n d m l history_location_not_validated [OF d m l k] q
  show ?thesis by (intro conjI)
qed

section \<open>GET /api/history: the limit is not clamped\<close>

lemma digit_char_of: "d < 10 \<Longrightarrow> digit 10 (char_of (48 + d)) = Some d"
  by (simp add: digit_def hex_val_def Let_def)

lemma decimal_nat_digits: "\<forall>ch\<in>set (decimal_nat n). \<exists>d. digit 10 ch = Some d"
proof (induction n rule: decimal_nat.induct)
  case (1 n)
  show ?case
  proof (cases "n < 10")
    case True
    then show ?thesis by (subst decimal_nat.simps) (simp add: digit_char_of)
  next
    case False
    with 1 show ?thesis by (subst decimal_nat.simps) (simp add: digit_char_of)
  qed
qed

lemma digits_value_append:
  "\<forall>ch\<in>set xs. \<exists>d. digit r ch = Some d \<Longrightarrow>
   digits_value r acc (xs @ ys) = digits_value r (digits_value r acc xs) ys"
  by (induction xs arbitrary: acc) auto

lemma digits_value_decimal_nat: "digits_value 10 0 (decimal_nat n) = int n"
proof (induction n rule: decimal_nat.induct)
  case (1 n)
  show ?case
  proof (cases "n < 10")
    case True
    then show ?thesis by (subst decimal_nat.simps) (simp add: digit_char_of)
  next
    case False
    with 1 have "digits_value 10 0 (decimal_nat (n div 10)) = int (n div 10)" by simp
    moreover have "int (n div 10) * 10 + int (n mod 10) = int n"
      by (simp add: zdiv_int zmod_int)
    ultimately show ?thesis
      using False
      by (subst decimal_nat.simps)
        (simp add: digits_value_append decimal_nat_digits digit_char_of)
  qed
qed

lemma decimal_nat_not_Nil: "decimal_nat n \<noteq> []"
  by (subst decimal_nat.simps) simp

lemma digit_range:
  "digit 10 ch = Some d \<Longrightarrow> 48 \<le> (of_char ch :: nat) \<and> (of_char ch :: nat) \<le> 57"
  unfolding digit_def hex_val_def Let_def
  by (simp split: if_splits option.splits)

lemma ws_len_digit:
  assumes "48 \<le> (of_char ch :: nat)" "(of_char ch :: nat) \<le> 57"
  shows "ws_len (ch # r) = 0"
  using assms by (simp add: ws_len_def split: list.split)

lemma ws_len_minus: "ws_len (CHR ''-'' # r) = 0"
  by (simp add: ws_len_def split: list.split)

lemma decimal_nat_hd: "\<exists>ch r d. decimal_nat n = ch # r \<and> digit 10 ch = Some d"
  using decimal_nat_digits [of n] decimal_nat_not_Nil [of n]
  by (cases "decimal_nat n") auto

lemma trim_start_decimal_nat: "trim_start (decimal_nat n) = decimal_nat n"
proof -
  obtain ch r d where "decimal_nat n = ch # r" "digit 10 ch = Some d"
    using decimal_nat_hd by blast
  then have "ws_len (decimal_nat n) = 0"
    using digit_range [of ch d] by (simp add: ws_len_digit)
  then show ?thesis by (simp add: trim_start.simps)
qed

lemma trim_start_minus: "trim_start (CHR ''-'' # r) = CHR ''-'' # r"
  by (simp add: trim_start.simps ws_len_minus)

lemma digits_no_hex_prefix:
  assumes "\<forall>ch\<in>set s. \<exists>d. digit 10 ch = Some d"
  shows "\<not> has_hex_prefix s"
proof
  assume "has_hex_prefix s"
  then obtain a r where s: "s = a # CHR ''x'' # r \<or> s = a # CHR ''X'' # r"
    by (cases s; cases "tl s") (auto simp: has_hex_prefix_def)
  have "digit 10 CHR ''x'' = None" "digit 10 CHR ''X'' = None"
    by (simp_all add: digit_def hex_val_def)
  with s assms show False by auto
qed

lemma decimal_nat_no_sign:
  "take 1 (decimal_nat n) \<noteq> ''-'' \<and> take 1 (decimal_nat n) \<noteq> ''+''"
proof -
  obtain ch r d where h: "decimal_nat n = ch # r" "digit 10 ch = Some d"
    using decimal_nat_hd by blast
  have "digit 10 CHR ''-'' = None" "digit 10 CHR ''+'' = None"
    by (simp_all add: digit_def hex_val_def)
  with h show ?thesis by auto
qed

lemma takeWhile_decimal_nat:
  "takeWhile (\<lambda>ch. \<exists>d. digit 10 ch = Some d) (decimal_nat n) = decimal_nat n"
  using decimal_nat_digits [of n] by (simp add: takeWhile_eq_all_conv)

lemma parseInt_decimal_nat: "parseInt (Some (decimal_nat n)) = to_number False (int n)"
  using decimal_nat_no_sign [of n] digits_no_hex_prefix [OF decimal_nat_digits, of n]
  by (simp add: parseInt_def Let_def trim_start_decimal_nat takeWhile_decimal_nat
      decimal_nat_not_Nil digits_value_decimal_nat)

lemma parseInt_minus_decimal_nat:
  "parseInt (Some (CHR ''-'' # decimal_nat n)) = to_number True (int n)"
  using digits_no_hex_prefix [OF decimal_nat_digits, of n]
  by (simp add: parseInt_def Let_def trim_start_minus takeWhile_decimal_nat
      decimal_nat_not_Nil digits_value_decimal_nat)

lemma parseInt_decimal: "parseInt (Some (decimal n)) = to_number (n < 0) \<bar>n\<bar>"
  by (simp add: decimal_def parseInt_decimal_nat parseInt_minus_decimal_nat)

lemma to_number_exact:
  assumes "\<bar>n\<bar> < 2 ^ 53"
  shows "to_number (n < 0) \<bar>n\<bar> = Num n"
proof -
  have "to_double \<bar>n\<bar> = Some \<bar>n\<bar>"
    using assms by (simp only: to_double_def if_True)
  then show ?thesis
    by (simp add: to_number_def)
qed

lemma parseInt_decimal_exact: "\<bar>n\<bar> < 2 ^ 53 \<Longrightarrow> parseInt (Some (decimal n)) = Num n"
  by (simp add: parseInt_decimal to_number_exact)

lemma resolved_limit_decimal:
  "\<bar>n\<bar> < 2 ^ 53 \<Longrightarrow> resolved_limit (Some (decimal n)) = Num (if n = 0 then 12 else n)"
  by (simp add: resolved_limit_def parseInt_decimal_exact)

lemma resolved_limit_None: "resolved_limit None = Num 12"
  by (simp add: resolved_limit_def parseInt_def)

lemma resolved_limit_not_zero: "resolved_limit v \<noteq> Num 0 \<and> resolved_limit v \<noteq> NaN"
  by (simp add: resolved_limit_def split: js_number.split)

lemma history_length_le_limit:
  assumes "history_handler c p v = Json200 body"
  shows "\<exists>m. resolved_limit v = Num m \<and> 0 < m \<and> length (data_h body) \<le> nat m"
proof (cases "resolved_limit v")
  case (Num m)
  with assms have "0 \<le> m" and len: "length (data_h body) \<le> nat m"
    by (auto simp: history_handler_def fetchAll_limit_def fetchAll_def Let_def
        split: sum.splits uri_error.splits store_error.splits option.splits if_splits)
  moreover have "m \<noteq> 0"
    using Num resolved_limit_not_zero [of v] by auto
  ultimately show ?thesis using Num by simp
next
  case NaN
  with resolved_limit_not_zero [of v] show ?thesis by simp
next
  case PosInfinity
  with assms show ?thesis
    by (auto simp: history_handler_def fetchAll_limit_def Let_def
        split: sum.splits uri_error.splits store_error.splits option.splits)
next
  case NegInfinity
  with assms show ?thesis
    by (auto simp: history_handler_def fetchAll_limit_def Let_def
        split: sum.splits uri_error.splits store_error.splits option.splits)
qed

text \<open>
  C3, as the spec states it, fails: a caller's limit of 1000 is used as 1000 and a limit
  of -5 as -5, both outside the range from 1 to 500.
\<close>

theorem limit_clamp_counterexample:
  "resolved_limit (Some ''1000'') = Num 1000 \<and> resolved_limit (Some ''-5'') = Num (- 5)"
  by code_simp

text \<open>
  C3, amended: the resolved limit is not clamped to any range. A caller's integer n
  with |n| < 2^53 is the resolved limit as it is, negative and above 500 included,
  except zero, which resolves to the default 12; a caller's integer of any size is read
  as the double nearest to it. An absent value, and a value \<open>parseInt\<close> reads no
  number from (\<open>NaN\<close>), resolve to 12. The resolved limit is never 0 and never \<open>NaN\<close>.
  A successful response holds at most as many records as the resolved limit, which is
  then a positive integer.
\<close>

theorem resolved_limit_not_clamped:
  "(\<bar>n\<bar> < 2 ^ 53 \<longrightarrow> resolved_limit (Some (decimal n)) = Num (if n = 0 then 12 else n))
   \<and> parseInt (Some (decimal n)) = to_number (n < 0) \<bar>n\<bar>
   \<and> resolved_limit None = Num 12
   \<and> (parseInt v = NaN \<longrightarrow> resolved_limit v = Num 12)
   \<and> resolved_limit v \<noteq> Num 0
   \<and> resolved_limit v \<noteq> NaN
   \<and> (history_handler c p v = Json200 body \<longrightarrow>
        (\<exists>m. resolved_limit v = Num m \<and> 0 < m \<and> length (data_h body) \<le> nat m))"
proof -
  have "parseInt v = NaN \<longrightarrow> resolved_limit v = Num 12"
    by (simp add: resolved_limit_def)
  then show ?thesis
    using resolved_limit_decimal [of n] parseInt_decimal [of n] resolved_limit_None
      resolved_limit_not_zero [of v] history_length_le_limit [of c p v body]
    by blast
qed

theorem resolved_limit_not_clamped_witness:
  "\<bar>1000 :: int\<bar> < 2 ^ 53
   \<and> decimal 1000 = ''1000''
   \<and> resolved_limit (Some (decimal 1000)) = Num 1000
   \<and> resolved_limit (Some (decimal (- 5))) = Num (- 5)
   \<and> resolved_limit (Some (decimal 0)) = Num 12
   \<and> parseInt (Some ''abc'') = NaN
   \<and> resolved_limit (Some ''abc'') = Num 12
   \<and> history_handler three_windows ''Dow's Lake'' (Some ''abc'') =
       Json200 \<lparr>location_h = ''Dow's Lake'', dataPoints = 3,
         data_h = [dows_lake 0 ''Safe'', dows_lake 5 ''Caution'', dows_lake 10 ''Safe'']\<rparr>
   \<and> (\<exists>m. resolved_limit (Some ''abc'') = Num m \<and> 0 < m
        \<and> length (data_h \<lparr>location_h = ''Dow's Lake'', dataPoints = 3,
             data_h = [dows_lake 0 ''Safe'', dows_lake 5 ''Caution'', dows_lake 10 ''Safe'']\<rparr>)
           \<le> nat m)"
proof -
  have s: "\<bar>1000 :: int\<bar> < 2 ^ 53" "\<bar>- 5 :: int\<bar> < 2 ^ 53" "\<bar>0 :: int\<bar> < 2 ^ 53"
    by simp_all
  have t: "decimal 1000 = ''1000''"
    by code_simp
  have a: "parseInt (Some ''abc'') = NaN"
    by code_simp
  have b: "history_handler three_windows ''Dow's Lake'' (Some ''abc'') =
       Json200 \<lparr>location_h = ''Dow's Lake'', dataPoints = 3,
         data_h = [dows_lake 0 ''Safe'', dows_lake 5 ''Caution'', dows_lake 10 ''Safe'']\<rparr>"
    by code_simp
  from resolved_limit_not_clamped [of 1000 "Some ''abc''" three_windows "''Dow's Lake''"
      "\<lparr>location_h = ''Dow's Lake'', dataPoints = 3,
         data_h = [dows_lake 0 ''Safe'', dows_lake 5 ''Caution'', dows_lake 10 ''Safe'']\<rparr>"]
    resolved_limit_not_clamped [of "- 5" v c p body for v c p body]
    resolved_limit_not_clamped [of 0 v c p body for v c p body] s t a b
  show ?thesis by simp
qed

section \<open>GET /api/history: chronological order\<close>

lemma windows_distinct:
  "distinct (map (\<lambda>d. (location d, windowEnd d)) ds) \<Longrightarrow>
   distinct (map windowEnd (filter (\<lambda>d. location d = L) ds))"
  by (induction ds) (auto simp: image_iff)

lemma desc_strict:
  assumes "distinct (map windowEnd ds)"
  shows "sorted_wrt (>) (map windowEnd (order_by_windowEnd_desc ds))"
proof -
  have "sorted_wrt (<) (map windowEnd (sort_key windowEnd ds))"
    using assms by (simp add: strict_sorted_iff distinct_map)
  then show ?thesis
    by (simp add: order_by_windowEnd_desc_def sorted_wrt_rev flip: rev_map)
qed

lemma rev_take_strict:
  assumes "sorted_wrt (>) (map windowEnd rs)"
  shows "sorted_wrt (<) (map windowEnd (rev (take k rs)))"
proof -
  have "sorted_wrt (>) (map windowEnd (take k rs))"
    using assms by (simp add: sorted_wrt_take flip: take_map)
  then show ?thesis by (simp add: sorted_wrt_rev flip: rev_map)
qed

text \<open>
  C4, as the spec states it, fails at the limit 0: the three stored windows of Dow's
  Lake all come back, a sequence longer than 0.
\<close>

theorem history_limit_zero_counterexample:
  "history_handler three_windows ''Dow's Lake'' (Some ''0'') =
     Json200 \<lparr>location_h = ''Dow's Lake'', dataPoints = 3,
       data_h = [dows_lake 0 ''Safe'', dows_lake 5 ''Caution'', dows_lake 10 ''Safe'']\<rparr>
   \<and> \<not> length [dows_lake 0 ''Safe'', dows_lake 5 ''Caution'', dows_lake 10 ''Safe'']
         \<le> (0 :: nat)"
  by code_simp

text \<open>
  C4, amended: for every location L and every limit k with 0 < k < 2^53 the history
  operation returns a sequence of length at most k; with the limit 0 or absent it
  returns one of length at most the default 12. In both cases the sequence is strictly
  ascending by \<open>windowEnd\<close>, so without a duplicate \<open>windowEnd\<close>, and is the reverse of
  what the store returned for the query in \<open>windowEnd\<close>-descending order: the caller
  never sees the store's descending order. (The store holds no two records with the same
  location and \<open>windowEnd\<close>, the data model's invariant; the lookup is one that does not
  throw.)
\<close>

theorem history_chronological:
  assumes inv: "distinct (map (\<lambda>d. (location d, windowEnd d)) (items c))"
    and dec: "decodeURIComponent param_location = Inr L"
    and up: "map_of (down c) L = None"
    and lim: "(query_limit = Some (decimal k) \<and> 0 < k \<and> k < 2 ^ 53 \<and> m = k)
      \<or> ((query_limit = Some (decimal 0) \<or> query_limit = None) \<and> m = 12)"
  shows "\<exists>body rs. history_handler c param_location query_limit = Json200 body
    \<and> location_h body = L
    \<and> length (data_h body) \<le> nat m
    \<and> sorted_wrt (<) (map windowEnd (data_h body))
    \<and> distinct (map windowEnd (data_h body))
    \<and> fetchAll c m L = Inr rs
    \<and> sorted_wrt (>) (map windowEnd rs)
    \<and> data_h body = rev rs"
proof -
  let ?desc = "order_by_windowEnd_desc (filter (\<lambda>d. location d = L) (items c))"
  let ?rs = "take (nat m) ?desc"
  have r: "resolved_limit query_limit = Num m" and pos: "0 < m"
    using lim resolved_limit_decimal [of k] resolved_limit_decimal [of 0] resolved_limit_None
    by auto
  have f: "fetchAll c m L = Inr ?rs"
    using up pos by (simp add: fetchAll_def)
  have strict: "sorted_wrt (>) (map windowEnd ?desc)"
    using inv by (simp add: desc_strict windows_distinct)
  then have srs: "sorted_wrt (>) (map windowEnd ?rs)"
    by (simp add: sorted_wrt_take flip: take_map)
  have asc: "sorted_wrt (<) (map windowEnd (rev ?rs))"
    using strict by (rule rev_take_strict)
  then have dis: "distinct (map windowEnd (rev ?rs))"
    by (simp add: strict_sorted_iff)
  have h: "history_handler c param_location query_limit =
      Json200 \<lparr>location_h = L, dataPoints = length (rev ?rs), data_h = rev ?rs\<rparr>"
    using dec f r by (simp add: history_handler_def fetchAll_limit_def Let_def)
  show ?thesis
    using h f srs asc dis by simp
qed

text \<open>
  The scenario of the spec: windows at T, T+5 and T+10, limit 2, gives the records of
  T+5 and T+10 in that order; limit 1 gives the record of T+10 alone.
\<close>

theorem history_chronological_witness:
  "distinct (map (\<lambda>d. (location d, windowEnd d)) (items three_windows))
   \<and> decodeURIComponent ''Dow's%20Lake'' = Inr ''Dow's Lake''
   \<and> map_of (down three_windows) ''Dow's Lake'' = None
   \<and> decimal 2 = ''2'' \<and> (0 :: int) < 2 \<and> (2 :: int) < 2 ^ 53
   \<and> history_handler three_windows ''Dow's%20Lake'' (Some (decimal 2)) =
       Json200 \<lparr>location_h = ''Dow's Lake'', dataPoints = 2,
         data_h = [dows_lake 5 ''Caution'', dows_lake 10 ''Safe'']\<rparr>
   \<and> history_handler three_windows ''Dow's%20Lake'' (Some (decimal 1)) =
       Json200 \<lparr>location_h = ''Dow's Lake'', dataPoints = 1,
         data_h = [dows_lake 10 ''Safe'']\<rparr>
   \<and> (\<exists>body rs. history_handler three_windows ''Dow's%20Lake'' (Some (decimal 2)) =
        Json200 body
    \<and> location_h body = ''Dow's Lake''
    \<and> length (data_h body) \<le> nat 2
    \<and> sorted_wrt (<) (map windowEnd (data_h body))
    \<and> distinct (map windowEnd (data_h body))
    \<and> fetchAll three_windows 2 ''Dow's Lake'' = Inr rs
    \<and> sorted_wrt (>) (map windowEnd rs)
    \<and> data_h body = rev rs)
   \<and> (\<exists>body rs. history_handler three_windows ''Dow's%20Lake'' None = Json200 body
    \<and> location_h body = ''Dow's Lake''
    \<and> length (data_h body) \<le> nat 12
    \<and> sorted_wrt (<) (map windowEnd (data_h body))
    \<and> distinct (map windowEnd (data_h body))
    \<and> fetchAll three_windows 12 ''Dow's Lake'' = Inr rs
    \<and> sorted_wrt (>) (map windowEnd rs)
    \<and> data_h body = rev rs)"
proof -
  have inv: "distinct (map (\<lambda>d. (location d, windowEnd d)) (items three_windows))"
    by (simp add: three_windows_def dows_lake_def)
  have dec: "decodeURIComponent ''Dow's%20Lake'' = Inr ''Dow's Lake''"
    by code_simp
  have up: "map_of (down three_windows) ''Dow's Lake'' = None"
    by (simp add: three_windows_def)
  have t: "decimal 2 = ''2''"
    by code_simp
  have k: "(0 :: int) < 2" "(2 :: int) < 2 ^ 53"
    by simp_all
  have lim2: "(Some (decimal 2) = Some (decimal 2) \<and> (0 :: int) < 2 \<and> (2 :: int) < 2 ^ 53
        \<and> (2 :: int) = 2)
      \<or> ((Some (decimal 2) = Some (decimal 0) \<or> Some (decimal 2) = None) \<and> (2 :: int) = 12)"
    by simp
  have limN: "(None = Some (decimal 2) \<and> (0 :: int) < 2 \<and> (2 :: int) < 2 ^ 53 \<and> (12 :: int) = 2)
      \<or> ((None = Some (decimal 0) \<or> (None :: string option) = None) \<and> (12 :: int) = 12)"
    by simp
  have h: "history_handler three_windows ''Dow's%20Lake'' (Some (decimal 2)) =
       Json200 \<lparr>location_h = ''Dow's Lake'', dataPoints = 2,
         data_h = [dows_lake 5 ''Caution'', dows_lake 10 ''Safe'']\<rparr>"
    by code_simp
  have h1: "history_handler three_windows ''Dow's%20Lake'' (Some (decimal 1)) =
       Json200 \<lparr>location_h = ''Dow's Lake'', dataPoints = 1,
         data_h = [dows_lake 10 ''Safe'']\<rparr>"
    by code_simp
  from inv dec up t k h h1 history_chronological [OF inv dec up lim2]
    history_chronological [OF inv dec up limN]
  show ?thesis by (intro conjI)
qed

section \<open>GET /api/latest: one entry per location, the most recent\<close>

lemma fetchAll_top1:
  "map_of (down c) l = None \<Longrightarrow>
   fetchAll c 1 l = Inr (case latest_record c l of None \<Rightarrow> [] | Some r \<Rightarrow> [r])"
  by (simp add: fetchAll_def latest_record_def split: list.split)

lemma latest_loop_result:
  "\<forall>l\<in>set locs. map_of (down c) l = None \<Longrightarrow>
   latest_loop c locs acc =
     Inr (acc @ concat (map (\<lambda>l. case latest_record c l of None \<Rightarrow> [] | Some r \<Rightarrow> [r]) locs))"
  by (induction locs arbitrary: acc) (simp_all add: fetchAll_top1 split: option.split)

lemma latest_record_location:
  "latest_record c l = Some r \<Longrightarrow> location r = l \<and> r \<in> set (items c)"
proof -
  assume "latest_record c l = Some r"
  then have "r \<in> set (order_by_windowEnd_desc (filter (\<lambda>d. location d = l) (items c)))"
    by (auto simp: latest_record_def split: list.splits)
  then show ?thesis by (simp add: order_by_windowEnd_desc_def)
qed

lemma latest_record_max:
  assumes "latest_record c l = Some r" "d \<in> set (items c)" "location d = l"
  shows "windowEnd d \<le> windowEnd r"
proof -
  let ?asc = "sort_key windowEnd (filter (\<lambda>d. location d = l) (items c))"
  from assms(1) obtain rest where "rev ?asc = r # rest"
    by (auto simp: latest_record_def order_by_windowEnd_desc_def split: list.splits)
  then have asc: "?asc = rev rest @ [r]"
    by (metis rev_eq_Cons_iff)
  have "sorted (map windowEnd ?asc)" by simp
  then have "\<forall>x\<in>set (rev rest). windowEnd x \<le> windowEnd r"
    unfolding asc by (simp add: sorted_append)
  moreover have "d \<in> set ?asc" using assms(2,3) by simp
  ultimately show ?thesis unfolding asc by auto
qed

lemma desc_Nil: "order_by_windowEnd_desc ds = [] \<longleftrightarrow> ds = []"
proof -
  have "length (order_by_windowEnd_desc ds) = length ds"
    by (simp add: order_by_windowEnd_desc_def)
  then show ?thesis by (metis length_0_conv)
qed

lemma latest_record_None:
  "latest_record c l = None \<longleftrightarrow> (\<forall>d\<in>set (items c). location d \<noteq> l)"
proof -
  have "latest_record c l = None \<longleftrightarrow> filter (\<lambda>d. location d = l) (items c) = []"
    unfolding desc_Nil [of "filter (\<lambda>d. location d = l) (items c)", symmetric]
    by (simp add: latest_record_def split: list.split)
  then show ?thesis by (auto simp: filter_empty_conv)
qed

lemma filter_latest_entries:
  "distinct locs \<Longrightarrow>
   filter (\<lambda>d. location d = L)
     (concat (map (\<lambda>l. case latest_record c l of None \<Rightarrow> [] | Some r \<Rightarrow> [r]) locs)) =
   (if L \<in> set locs then (case latest_record c L of None \<Rightarrow> [] | Some r \<Rightarrow> [r]) else [])"
proof (induction locs)
  case Nil
  then show ?case by simp
next
  case (Cons l locs)
  then show ?case
    by (auto split: option.splits dest: latest_record_location)
qed

text \<open>
  C5: for every known location L with at least one stored record the latest-snapshot
  result holds exactly one entry for L, a stored record whose \<open>windowEnd\<close> is at least
  that of every stored record of L; a location without records is no error and has no
  entry. (The lookups are ones that do not throw.)
\<close>

theorem latest_one_entry_per_location:
  assumes up: "\<forall>l\<in>set locations. map_of (down c) l = None"
    and known: "L \<in> set locations"
  shows "\<exists>body. latest_handler c now = Json200 body
    \<and> (if \<exists>d\<in>set (items c). location d = L
        then \<exists>r. filter (\<lambda>d. location d = L) (data body) = [r]
              \<and> r \<in> set (items c)
              \<and> (\<forall>d\<in>set (items c). location d = L \<longrightarrow> windowEnd d \<le> windowEnd r)
        else filter (\<lambda>d. location d = L) (data body) = [])"
proof -
  let ?out = "concat (map (\<lambda>l. case latest_record c l of None \<Rightarrow> [] | Some r \<Rightarrow> [r]) locations)"
  have h: "latest_handler c now = Json200 \<lparr>timestamp = now, data = ?out\<rparr>"
    using latest_loop_result [OF up, of "[]"] by (simp add: latest_handler_def)
  have "distinct locations" by (simp add: locations_def)
  then have f: "filter (\<lambda>d. location d = L) ?out =
      (case latest_record c L of None \<Rightarrow> [] | Some r \<Rightarrow> [r])"
    using known by (simp add: filter_latest_entries)
  show ?thesis
  proof (cases "latest_record c L")
    case None
    with f h show ?thesis by (simp add: latest_record_None [symmetric])
  next
    case (Some r)
    then have "\<exists>d\<in>set (items c). location d = L"
      using latest_record_None [of c L] by auto
    moreover have "r \<in> set (items c)"
      using Some latest_record_location by blast
    moreover have "\<forall>d\<in>set (items c). location d = L \<longrightarrow> windowEnd d \<le> windowEnd r"
      using Some latest_record_max by blast
    ultimately show ?thesis using f h Some by simp
  qed
qed

theorem latest_one_entry_per_location_witness:
  "down three_windows = []
   \<and> ''Dow's Lake'' \<in> set locations
   \<and> dows_lake 0 ''Safe'' \<in> set (items three_windows)
   \<and> latest_handler three_windows ''now'' =
       Json200 \<lparr>timestamp = ''now'', data = [dows_lake 10 ''Safe'']\<rparr>
   \<and> (\<exists>body. latest_handler three_windows ''now'' = Json200 body
    \<and> (if \<exists>d\<in>set (items three_windows). location d = ''Dow's Lake''
        then \<exists>r. filter (\<lambda>d. location d = ''Dow's Lake'') (data body) = [r]
              \<and> r \<in> set (items three_windows)
              \<and> (\<forall>d\<in>set (items three_windows).
                    location d = ''Dow's Lake'' \<longrightarrow> windowEnd d \<le> windowEnd r)
        else filter (\<lambda>d. location d = ''Dow's Lake'') (data body) = []))"
proof -
  have dn: "down three_windows = []"
    by (simp add: three_windows_def)
  then have up: "\<forall>l\<in>set locations. map_of (down three_windows) l = None"
    by simp
  have known: "''Dow's Lake'' \<in> set locations"
    by (simp add: locations_def)
  have stored: "dows_lake 0 ''Safe'' \<in> set (items three_windows)"
    by (simp add: three_windows_def)
  have h: "latest_handler three_windows ''now'' =
       Json200 \<lparr>timestamp = ''now'', data = [dows_lake 10 ''Safe'']\<rparr>"
    by code_simp
  from dn known stored h latest_one_entry_per_location [OF up known, of "''now''"]
  show ?thesis by (intro conjI)
qed

section \<open>GET /api/status: tallies and roll-up\<close>

lemma status_loop_result:
  "\<forall>l\<in>set locs. map_of (down c) l = None \<Longrightarrow>
   status_loop c locs (s, ca, u) =
     Inr (s + length (filter (\<lambda>l. latest_status c l = Some ''Safe'') locs),
          ca + length (filter (\<lambda>l. latest_status c l = Some ''Caution'') locs),
          u + length (filter (counted_unsafe c) locs))"
proof (induction locs arbitrary: s ca u)
  case Nil
  then show ?case by simp
next
  case (Cons l locs)
  then have up: "map_of (down c) l = None" and rest: "\<forall>l\<in>set locs. map_of (down c) l = None"
    by simp_all
  show ?case
  proof (cases "latest_record c l")
    case None
    then show ?thesis
      using Cons.IH [OF rest] up
      by (simp add: fetchAll_top1 latest_status_def counted_unsafe_def)
  next
    case (Some r)
    then show ?thesis
      using Cons.IH [OF rest] up
      by (simp add: fetchAll_top1 latest_status_def counted_unsafe_def)
  qed
qed


lemma status_handler_result:
  assumes "\<forall>l\<in>set locations. map_of (down c) l = None"
  shows "status_handler c now =
    Json200 \<lparr>timestamp_s = now,
      overallStatus =
        (if \<exists>l\<in>set locations. counted_unsafe c l then ''Unsafe''
         else if \<exists>l\<in>set locations. latest_status c l = Some ''Caution''
         then ''Caution'' else ''Safe''),
      breakdown =
        \<lparr>safe = length (filter (\<lambda>l. latest_status c l = Some ''Safe'') locations),
         caution = length (filter (\<lambda>l. latest_status c l = Some ''Caution'') locations),
         unsafe = length (filter (counted_unsafe c) locations),
         total_n = length locations\<rparr>\<rparr>"
  using status_loop_result [OF assms, of 0 0 0]
  by (simp add: status_handler_def filter_empty_conv)

lemma Unsafe_counted_unsafe: "latest_status c l = Some ''Unsafe'' \<Longrightarrow> counted_unsafe c l"
  by (simp add: counted_unsafe_def)

lemma known_counted_unsafe:
  "latest_status c l \<in> {None, Some ''Safe'', Some ''Caution'', Some ''Unsafe''} \<Longrightarrow>
   counted_unsafe c l \<longleftrightarrow> latest_status c l = Some ''Unsafe''"
  by (auto simp: counted_unsafe_def)

text \<open>
  C6: for every assignment of latest statuses to the known locations the overall status
  follows the strict priority: \<open>Unsafe\<close> if any location's latest status is
  \<open>Unsafe\<close>, otherwise \<open>Caution\<close> if any is \<open>Caution\<close>, otherwise \<open>Safe\<close>. One
  \<open>Unsafe\<close> location forces \<open>Unsafe\<close> whatever the other locations hold. (The
  statuses are the three known values or absent; the lookups are ones that do not
  throw.)
\<close>

theorem status_priority:
  assumes up: "\<forall>l\<in>set locations. map_of (down c) l = None"
  shows "\<exists>body. status_handler c now = Json200 body
    \<and> ((\<exists>l\<in>set locations. latest_status c l = Some ''Unsafe'') \<longrightarrow>
         overallStatus body = ''Unsafe'')
    \<and> ((\<forall>l\<in>set locations.
           latest_status c l \<in> {None, Some ''Safe'', Some ''Caution'', Some ''Unsafe''}) \<longrightarrow>
         overallStatus body =
           (if \<exists>l\<in>set locations. latest_status c l = Some ''Unsafe'' then ''Unsafe''
            else if \<exists>l\<in>set locations. latest_status c l = Some ''Caution'' then ''Caution''
            else ''Safe''))"
proof -
  obtain body where h: "status_handler c now = Json200 body"
    and o: "overallStatus body =
        (if \<exists>l\<in>set locations. counted_unsafe c l then ''Unsafe''
         else if \<exists>l\<in>set locations. latest_status c l = Some ''Caution''
         then ''Caution'' else ''Safe'')"
    using status_handler_result [OF up, of now] by simp
  have a: "overallStatus body = ''Unsafe''"
    if "\<exists>l\<in>set locations. latest_status c l = Some ''Unsafe''"
  proof -
    from that have "\<exists>l\<in>set locations. counted_unsafe c l"
      using Unsafe_counted_unsafe by blast
    with o show ?thesis by simp
  qed
  have b: "overallStatus body =
      (if \<exists>l\<in>set locations. latest_status c l = Some ''Unsafe'' then ''Unsafe''
       else if \<exists>l\<in>set locations. latest_status c l = Some ''Caution'' then ''Caution''
       else ''Safe'')"
    if "\<forall>l\<in>set locations.
      latest_status c l \<in> {None, Some ''Safe'', Some ''Caution'', Some ''Unsafe''}"
  proof -
    from that have "(\<exists>l\<in>set locations. counted_unsafe c l) \<longleftrightarrow>
        (\<exists>l\<in>set locations. latest_status c l = Some ''Unsafe'')"
      using known_counted_unsafe by blast
    with o show ?thesis by simp
  qed
  from h a b show ?thesis by blast
qed

theorem status_priority_witness:
  "down mixed_statuses = []
   \<and> latest_status mixed_statuses ''Dow's Lake'' = Some ''Safe''
   \<and> latest_status mixed_statuses ''Fifth Avenue'' = Some ''Caution''
   \<and> latest_status mixed_statuses ''NAC'' = Some ''Unsafe''
   \<and> status_handler mixed_statuses ''now'' =
       Json200 \<lparr>timestamp_s = ''now'', overallStatus = ''Unsafe'',
         breakdown = \<lparr>safe = 1, caution = 1, unsafe = 1, total_n = 3\<rparr>\<rparr>
   \<and> (\<exists>body. status_handler mixed_statuses ''now'' = Json200 body
    \<and> ((\<exists>l\<in>set locations. latest_status mixed_statuses l = Some ''Unsafe'') \<longrightarrow>
         overallStatus body = ''Unsafe'')
    \<and> ((\<forall>l\<in>set locations. latest_status mixed_statuses l
           \<in> {None, Some ''Safe'', Some ''Caution'', Some ''Unsafe''}) \<longrightarrow>
         overallStatus body =
           (if \<exists>l\<in>set locations. latest_status mixed_statuses l = Some ''Unsafe''
            then ''Unsafe''
            else if \<exists>l\<in>set locations. latest_status mixed_statuses l = Some ''Caution''
            then ''Caution'' else ''Safe'')))"
proof -
  have dn: "down mixed_statuses = []"
    by (simp add: mixed_statuses_def)
  then have up: "\<forall>l\<in>set locations. map_of (down mixed_statuses) l = None"
    by simp
  have a: "latest_status mixed_statuses ''Dow's Lake'' = Some ''Safe''"
    by code_simp
  have b: "latest_status mixed_statuses ''Fifth Avenue'' = Some ''Caution''"
    by code_simp
  have c: "latest_status mixed_statuses ''NAC'' = Some ''Unsafe''"
    by code_simp
  have h: "status_handler mixed_statuses ''now'' =
       Json200 \<lparr>timestamp_s = ''now'', overallStatus = ''Unsafe'',
         breakdown = \<lparr>safe = 1, caution = 1, unsafe = 1, total_n = 3\<rparr>\<rparr>"
    by code_simp
  from dn a b c h status_priority [OF up, of "''now''"]
  show ?thesis by (intro conjI)
qed

text \<open>
  C8: a stored record whose \<open>safetyStatus\<close> is none of \<open>Safe\<close>, \<open>Caution\<close>,
  \<open>Unsafe\<close> is treated as \<open>Unsafe\<close> where the status operation reads it (as the
  latest record of a known location): its location is one of those the \<open>unsafe\<close> tally
  counts, the \<open>safe\<close> and \<open>caution\<close> tallies count only locations whose latest status
  is \<open>Safe\<close> and \<open>Caution\<close>, and the overall status is \<open>Unsafe\<close>.
\<close>

theorem unknown_status_counted_unsafe:
  assumes up: "\<forall>l\<in>set locations. map_of (down c) l = None"
    and known: "L \<in> set locations"
    and latest: "latest_record c L = Some r"
    and unknown: "safetyStatus r \<notin> {''Safe'', ''Caution'', ''Unsafe''}"
  shows "\<exists>body. status_handler c now = Json200 body
    \<and> r \<in> set (items c)
    \<and> unsafe (breakdown body) = length (filter (counted_unsafe c) locations)
    \<and> L \<in> set (filter (counted_unsafe c) locations)
    \<and> safe (breakdown body) =
        length (filter (\<lambda>l. latest_status c l = Some ''Safe'') locations)
    \<and> L \<notin> set (filter (\<lambda>l. latest_status c l = Some ''Safe'') locations)
    \<and> caution (breakdown body) =
        length (filter (\<lambda>l. latest_status c l = Some ''Caution'') locations)
    \<and> L \<notin> set (filter (\<lambda>l. latest_status c l = Some ''Caution'') locations)
    \<and> 0 < unsafe (breakdown body)
    \<and> overallStatus body = ''Unsafe''"
proof -
  have st: "latest_status c L = Some (safetyStatus r)"
    using latest by (simp add: latest_status_def)
  have stored: "r \<in> set (items c)"
    using latest latest_record_location by blast
  have cu: "counted_unsafe c L"
    using st unknown by (simp add: counted_unsafe_def)
  with known have ex: "\<exists>l\<in>set locations. counted_unsafe c l" by blast
  then have pos: "0 < length (filter (counted_unsafe c) locations)"
    by (simp add: filter_empty_conv)
  show ?thesis
    unfolding status_handler_result [OF up] using cu ex pos st unknown stored known by simp
qed

theorem unknown_status_counted_unsafe_witness:
  "down unknown_status = []
   \<and> ''Fifth Avenue'' \<in> set locations
   \<and> latest_record unknown_status ''Fifth Avenue'' = Some (fifth_avenue 10 ''Closed'')
   \<and> safetyStatus (fifth_avenue 10 ''Closed'') \<notin> {''Safe'', ''Caution'', ''Unsafe''}
   \<and> status_handler unknown_status ''now'' =
       Json200 \<lparr>timestamp_s = ''now'', overallStatus = ''Unsafe'',
         breakdown = \<lparr>safe = 1, caution = 0, unsafe = 1, total_n = 3\<rparr>\<rparr>
   \<and> (\<exists>body. status_handler unknown_status ''now'' = Json200 body
    \<and> fifth_avenue 10 ''Closed'' \<in> set (items unknown_status)
    \<and> unsafe (breakdown body) = length (filter (counted_unsafe unknown_status) locations)
    \<and> ''Fifth Avenue'' \<in> set (filter (counted_unsafe unknown_status) locations)
    \<and> safe (breakdown body) =
        length (filter (\<lambda>l. latest_status unknown_status l = Some ''Safe'') locations)
    \<and> ''Fifth Avenue''
        \<notin> set (filter (\<lambda>l. latest_status unknown_status l = Some ''Safe'') locations)
    \<and> caution (breakdown body) =
        length (filter (\<lambda>l. latest_status unknown_status l = Some ''Caution'') locations)
    \<and> ''Fifth Avenue''
        \<notin> set (filter (\<lambda>l. latest_status unknown_status l = Some ''Caution'') locations)
    \<and> 0 < unsafe (breakdown body)
    \<and> overallStatus body = ''Unsafe'')"
proof -
  have dn: "down unknown_status = []"
    by (simp add: unknown_status_def)
  then have up: "\<forall>l\<in>set locations. map_of (down unknown_status) l = None"
    by simp
  have known: "''Fifth Avenue'' \<in> set locations"
    by (simp add: locations_def)
  have latest: "latest_record unknown_status ''Fifth Avenue'' = Some (fifth_avenue 10 ''Closed'')"
    by code_simp
  have unknown: "safetyStatus (fifth_avenue 10 ''Closed'') \<notin> {''Safe'', ''Caution'', ''Unsafe''}"
    by (simp add: fifth_avenue_def)
  have h: "status_handler unknown_status ''now'' =
       Json200 \<lparr>timestamp_s = ''now'', overallStatus = ''Unsafe'',
         breakdown = \<lparr>safe = 1, caution = 0, unsafe = 1, total_n = 3\<rparr>\<rparr>"
    by code_simp
  from dn known latest unknown h
    unknown_status_counted_unsafe [OF up known latest unknown, of "''now''"]
  show ?thesis by (intro conjI)
qed

lemma tallies_partition:
  "length (filter (\<lambda>l. latest_status c l = Some ''Safe'') locs)
   + length (filter (\<lambda>l. latest_status c l = Some ''Caution'') locs)
   + length (filter (counted_unsafe c) locs)
   + length (filter (\<lambda>l. latest_status c l = None) locs) = length locs"
  by (induction locs) (auto simp: counted_unsafe_def split: option.splits)

text \<open>
  C7: a known location without stored records is counted in none of the \<open>safe\<close>,
  \<open>caution\<close> and \<open>unsafe\<close> tallies but in \<open>total\<close>, which is always the size of the
  fixed location set; and it does not decide the overall status: with the other
  locations \<open>Safe\<close> or without data the overall status is \<open>Safe\<close>, with one of them
  \<open>Caution\<close> and none worse it is \<open>Caution\<close>.
\<close>

theorem no_data_location_not_counted:
  assumes up: "\<forall>l\<in>set locations. map_of (down c) l = None"
    and known: "L \<in> set locations"
    and nodata: "\<forall>d\<in>set (items c). location d \<noteq> L"
  shows "\<exists>body. status_handler c now = Json200 body
    \<and> total_n (breakdown body) = length locations
    \<and> total_n (breakdown body) = 3
    \<and> safe (breakdown body) =
        length (filter (\<lambda>l. latest_status c l = Some ''Safe'') locations)
    \<and> caution (breakdown body) =
        length (filter (\<lambda>l. latest_status c l = Some ''Caution'') locations)
    \<and> unsafe (breakdown body) = length (filter (counted_unsafe c) locations)
    \<and> L \<notin> set (filter (\<lambda>l. latest_status c l = Some ''Safe'') locations)
    \<and> L \<notin> set (filter (\<lambda>l. latest_status c l = Some ''Caution'') locations)
    \<and> L \<notin> set (filter (counted_unsafe c) locations)
    \<and> safe (breakdown body) + caution (breakdown body) + unsafe (breakdown body)
        < total_n (breakdown body)
    \<and> ((\<forall>l\<in>set locations. latest_status c l = None \<or> latest_status c l = Some ''Safe'') \<longrightarrow>
         overallStatus body = ''Safe'')
    \<and> ((\<exists>l\<in>set locations. latest_status c l = Some ''Caution'')
        \<and> (\<forall>l\<in>set locations. latest_status c l = None
              \<or> latest_status c l = Some ''Safe'' \<or> latest_status c l = Some ''Caution'') \<longrightarrow>
         overallStatus body = ''Caution'')"
proof -
  have none: "latest_status c L = None"
    using nodata by (simp add: latest_status_def latest_record_None)
  then have ncu: "\<not> counted_unsafe c L"
    by (simp add: counted_unsafe_def)
  have "L \<in> set (filter (\<lambda>l. latest_status c l = None) locations)"
    using known none by simp
  then have "0 < length (filter (\<lambda>l. latest_status c l = None) locations)"
    by (cases "filter (\<lambda>l. latest_status c l = None) locations") simp_all
  then have less: "length (filter (\<lambda>l. latest_status c l = Some ''Safe'') locations)
      + length (filter (\<lambda>l. latest_status c l = Some ''Caution'') locations)
      + length (filter (counted_unsafe c) locations) < length locations"
    using tallies_partition [of c locations] by linarith
  have three: "length locations = 3"
    by (simp add: locations_def)
  have s: "\<not> (\<exists>l\<in>set locations. counted_unsafe c l) \<and>
      \<not> (\<exists>l\<in>set locations. latest_status c l = Some ''Caution'')"
    if "\<forall>l\<in>set locations. latest_status c l = None \<or> latest_status c l = Some ''Safe''"
    using that by (auto simp: counted_unsafe_def)
  have ca: "\<not> (\<exists>l\<in>set locations. counted_unsafe c l)"
    if "\<forall>l\<in>set locations. latest_status c l = None
          \<or> latest_status c l = Some ''Safe'' \<or> latest_status c l = Some ''Caution''"
    using that by (auto simp: counted_unsafe_def)
  show ?thesis
    unfolding status_handler_result [OF up] using none ncu less three s ca by simp
qed

theorem no_data_location_not_counted_witness:
  "down three_windows = [] \<and> down nac_caution_only = []
   \<and> ''NAC'' \<in> set locations \<and> ''Dow's Lake'' \<in> set locations
   \<and> latest_status three_windows ''Dow's Lake'' = Some ''Safe''
   \<and> latest_status three_windows ''Fifth Avenue'' = None
   \<and> latest_status three_windows ''NAC'' = None
   \<and> status_handler three_windows ''now'' =
       Json200 \<lparr>timestamp_s = ''now'', overallStatus = ''Safe'',
         breakdown = \<lparr>safe = 1, caution = 0, unsafe = 0, total_n = 3\<rparr>\<rparr>
   \<and> latest_status nac_caution_only ''Dow's Lake'' = None
   \<and> latest_status nac_caution_only ''Fifth Avenue'' = None
   \<and> latest_status nac_caution_only ''NAC'' = Some ''Caution''
   \<and> status_handler nac_caution_only ''now'' =
       Json200 \<lparr>timestamp_s = ''now'', overallStatus = ''Caution'',
         breakdown = \<lparr>safe = 0, caution = 1, unsafe = 0, total_n = 3\<rparr>\<rparr>
   \<and> (\<exists>body. status_handler three_windows ''now'' = Json200 body
        \<and> total_n (breakdown body) = 3
        \<and> safe (breakdown body) + caution (breakdown body) + unsafe (breakdown body)
            < total_n (breakdown body)
        \<and> ''NAC'' \<notin> set (filter (counted_unsafe three_windows) locations))
   \<and> (\<exists>body. status_handler nac_caution_only ''now'' = Json200 body
        \<and> total_n (breakdown body) = 3
        \<and> safe (breakdown body) + caution (breakdown body) + unsafe (breakdown body)
            < total_n (breakdown body)
        \<and> ''Dow's Lake'' \<notin> set (filter (counted_unsafe nac_caution_only) locations))"
proof -
  have dn: "down three_windows = []" "down nac_caution_only = []"
    by (simp_all add: three_windows_def nac_caution_only_def)
  then have up: "\<forall>l\<in>set locations. map_of (down three_windows) l = None"
    "\<forall>l\<in>set locations. map_of (down nac_caution_only) l = None"
    by simp_all
  have known: "''NAC'' \<in> set locations" "''Dow's Lake'' \<in> set locations"
    by (simp_all add: locations_def)
  have nodata: "\<forall>d\<in>set (items three_windows). location d \<noteq> ''NAC''"
    "\<forall>d\<in>set (items nac_caution_only). location d \<noteq> ''Dow's Lake''"
    by (simp_all add: three_windows_def nac_caution_only_def dows_lake_def nac_def)
  have a: "latest_status three_windows ''Dow's Lake'' = Some ''Safe''"
    "latest_status three_windows ''Fifth Avenue'' = None"
    "latest_status three_windows ''NAC'' = None"
    by code_simp+
  have b: "latest_status nac_caution_only ''Dow's Lake'' = None"
    "latest_status nac_caution_only ''Fifth Avenue'' = None"
    "latest_status nac_caution_only ''NAC'' = Some ''Caution''"
    by code_simp+
  have h: "status_handler three_windows ''now'' =
       Json200 \<lparr>timestamp_s = ''now'', overallStatus = ''Safe'',
         breakdown = \<lparr>safe = 1, caution = 0, unsafe = 0, total_n = 3\<rparr>\<rparr>"
    by code_simp
  have k: "status_handler nac_caution_only ''now'' =
       Json200 \<lparr>timestamp_s = ''now'', overallStatus = ''Caution'',
         breakdown = \<lparr>safe = 0, caution = 1, unsafe = 0, total_n = 3\<rparr>\<rparr>"
    by code_simp
  have t1: "\<exists>body. status_handler three_windows ''now'' = Json200 body
        \<and> total_n (breakdown body) = 3
        \<and> safe (breakdown body) + caution (breakdown body) + unsafe (breakdown body)
            < total_n (breakdown body)
        \<and> ''NAC'' \<notin> set (filter (counted_unsafe three_windows) locations)"
    using no_data_location_not_counted [OF up(1) known(1) nodata(1), of "''now''"]
    by blast
  have t2: "\<exists>body. status_handler nac_caution_only ''now'' = Json200 body
        \<and> total_n (breakdown body) = 3
        \<and> safe (breakdown body) + caution (breakdown body) + unsafe (breakdown body)
            < total_n (breakdown body)
        \<and> ''Dow's Lake'' \<notin> set (filter (counted_unsafe nac_caution_only) locations)"
    using no_data_location_not_counted [OF up(2) known(2) nodata(2), of "''now''"]
    by blast
  from dn known a h b k t1 t2 show ?thesis by (intro conjI)
qed

section \<open>The client's charts: the last response to arrive wins\<close>

text \<open>
  C9, as the spec states it, fails: Fifth Avenue is requested, then NAC; the answer for
  NAC is drawn, and when the stale answer for Fifth Avenue arrives it is drawn over it,
  although NAC is the selected location and the newest request.
\<close>

theorem stale_response_counterexample:
  "charts (run_poller fresh_poller (take 3 stale_trace)) = Some [nac 10 ''Caution'']
   \<and> selected (run_poller fresh_poller stale_trace) = ''NAC''
   \<and> pending (run_poller fresh_poller stale_trace) = []
   \<and> charts (run_poller fresh_poller stale_trace) = Some [fifth_avenue 10 ''Safe'']"
  by code_simp

text \<open>
  C9, amended: in the client poller a response is not correlated to the request that
  issued it. Every successful history response is drawn when it arrives, whichever
  request it answers and whatever was requested or drawn since, so the charts show the
  response that arrived last: a late response for location X overwrites the charts drawn
  from the newer request for location Y.
\<close>

theorem response_drawn_on_arrival:
  "i < length (pending (run_poller p evs)) \<Longrightarrow>
   charts (run_poller p (evs @ [Settle i (Resolved (Json200 result))])) =
     Some (data_h result)"
  by (simp add: run_poller_def)

theorem response_drawn_on_arrival_witness:
  "pending (run_poller fresh_poller (take 3 stale_trace)) = [''Fifth Avenue'']
   \<and> selected (run_poller fresh_poller (take 3 stale_trace)) = ''NAC''
   \<and> charts (run_poller fresh_poller (take 3 stale_trace)) = Some [nac 10 ''Caution'']
   \<and> charts (run_poller fresh_poller (take 3 stale_trace @
        [Settle 0 (Resolved (Json200
          \<lparr>location_h = ''Fifth Avenue'', dataPoints = 1,
            data_h = [fifth_avenue 10 ''Safe'']\<rparr>))])) =
       Some (data_h \<lparr>location_h = ''Fifth Avenue'', dataPoints = 1,
            data_h = [fifth_avenue 10 ''Safe'']\<rparr>)"
proof -
  have a: "pending (run_poller fresh_poller (take 3 stale_trace)) = [''Fifth Avenue'']"
    by code_simp
  have b: "selected (run_poller fresh_poller (take 3 stale_trace)) = ''NAC''"
    by code_simp
  have c: "charts (run_poller fresh_poller (take 3 stale_trace)) = Some [nac 10 ''Caution'']"
    by code_simp
  have i: "0 < length (pending (run_poller fresh_poller (take 3 stale_trace)))"
    by (simp add: a)
  from a b c response_drawn_on_arrival [OF i] show ?thesis by (intro conjI)
qed

end
